theory Spec2Isabelle
  imports Main
begin

section \<open>The multi-dependency loader of \<^verbatim>\<open>android_taskgraph/loader/multi_dep.py\<close>\<close>

text \<open>
  The loader groups previously loaded tasks, checks that a group holds one task per kind,
  picks the primary dependency of the group and yields one task definition per group.
  Python dictionaries keep insertion order and have unique keys: they are association
  lists here, built only through \<open>dict_setitem\<close>; a dictionary that comes from outside
  (the argument of \<open>get_primary_dep\<close>) has distinct keys, which the theorems assume where
  they need it.
\<close>

subsection \<open>Data\<close>

text \<open>The two attributes of \<^verbatim>\<open>taskgraph.task.Task\<close> that the loader reads.\<close>

record task =
  kind :: string
  label :: string

type_synonym 'v dict = "(string \<times> 'v) list"

text \<open>
  The values a task definition or a \<^verbatim>\<open>task-template\<close> holds: YAML data, task objects,
  and dictionaries of them.
\<close>

datatype pyval =
    VNone
  | VBool bool
  | VInt int
  | VStr string
  | VList "pyval list"
  | VDict "(string \<times> pyval) list"
  | VTask task

text \<open>
  \<^verbatim>\<open>config.get("primary-dependency")\<close>: absent (or null), a string, or a list of kinds, as
  the loader's docstring gives it ("ordered list or string").
\<close>

datatype primary_dependency_cfg =
    PdUndefined
  | PdStr string
  | PdList "string list"

text \<open>
  The kind configuration, with the two keys the loader reads. \<^verbatim>\<open>task-template\<close> is a
  mapping when it is given; \<open>None\<close> is the \<^verbatim>\<open>None\<close> that \<^verbatim>\<open>config.get\<close> returns for an
  absent key.
\<close>

record config =
  primary_dependency :: primary_dependency_cfg
  task_template :: "pyval dict option"

text \<open>
  Every way the module raises, named by the place that raises:
  \<^item> \<open>PyException msg\<close>: \<^verbatim>\<open>raise Exception(error_msg)\<close> in \<^verbatim>\<open>assert_unique_members\<close>;
  \<^item> \<open>MustDefinePrimary\<close>: the failed assertion \<^verbatim>\<open>len(dep_tasks) == 1\<close>;
  \<^item> \<open>ValuesNotSubscriptable\<close>: \<^verbatim>\<open>dep_tasks.values()[0]\<close>, a \<^verbatim>\<open>TypeError\<close>, since a
    dictionary view has no indexing;
  \<^item> \<open>TooManyPrimary\<close>: the assertion \<^verbatim>\<open>primary_dep is None\<close> inside the search, found
    false. What Python raises there is an \<^verbatim>\<open>AttributeError\<close>, not the assertion's own error:
    the message expression reads \<^verbatim>\<open>t.label\<close> of the dictionary's keys, which are strings.
    The search ends at that statement either way, and the constructor names the statement;
  \<^item> \<open>CantFindDependency\<close>: \<^verbatim>\<open>raise Exception("Can't find dependency of ...")\<close>; the
    configuration printed in the message is not kept;
  \<^item> \<open>KeyError k\<close>: a subscript \<^verbatim>\<open>d[k]\<close> with \<open>k\<close> not a key of \<open>d\<close>.
  Assertions are taken as enabled, the interpreter's default.
\<close>

datatype error =
    PyException "string option"
  | MustDefinePrimary
  | ValuesNotSubscriptable
  | TooManyPrimary
  | CantFindDependency
  | KeyError string

subsection \<open>Dictionaries\<close>

text \<open>\<^verbatim>\<open>d[k] = v\<close>: an existing key keeps its place and takes the new value, a new key goes last.\<close>

fun dict_setitem :: "string \<Rightarrow> 'v \<Rightarrow> 'v dict \<Rightarrow> 'v dict" where
  "dict_setitem k v [] = [(k, v)]"
| "dict_setitem k v ((k', v') # d) =
     (if k' = k then (k, v) # d else (k', v') # dict_setitem k v d)"

text \<open>\<^verbatim>\<open>d[k]\<close> as an expression.\<close>

definition dict_getitem :: "'v dict \<Rightarrow> string \<Rightarrow> error + 'v" where
  "dict_getitem d k = (case map_of d k of None \<Rightarrow> Inl (KeyError k) | Some v \<Rightarrow> Inr v)"

text \<open>\<^verbatim>\<open>d.update(other)\<close> with \<open>other\<close> a dictionary: its items are stored in order.\<close>

definition dict_update :: "'v dict \<Rightarrow> 'v dict \<Rightarrow> 'v dict" where
  "dict_update d other = fold (\<lambda>(k, v) acc. dict_setitem k v acc) other d"

text \<open>
  \<^verbatim>\<open>copy.deepcopy\<close>: the value is rebuilt level by level. A HOL value has no identity, so
  what the model can say of the copy is which value it is.
\<close>

fun deepcopy :: "pyval \<Rightarrow> pyval" where
  "deepcopy (VList xs) = VList (map deepcopy xs)"
| "deepcopy (VDict d) = VDict (map (\<lambda>(k, v). (k, deepcopy v)) d)"
| "deepcopy v = v"

text \<open>The same for a dictionary held as such: each value is copied, under its key.\<close>

definition deepcopy_dict :: "pyval dict \<Rightarrow> pyval dict" where
  "deepcopy_dict d = map (\<lambda>(k, v). (k, deepcopy v)) d"

subsection \<open>\<^verbatim>\<open>assert_unique_members\<close>\<close>

definition assert_unique_members :: "string list \<Rightarrow> string option \<Rightarrow> error + unit" where
  "assert_unique_members kinds error_msg =
     (if length kinds \<noteq> card (set kinds) then Inl (PyException error_msg) else Inr ())"

subsection \<open>\<^verbatim>\<open>get_primary_dep\<close>\<close>

text \<open>
  The inner loop \<^verbatim>\<open>for dep_kind in dep_tasks\<close>, over the keys still to visit, with the
  current \<^verbatim>\<open>primary_dep\<close> as accumulator.
\<close>

fun primary_inner ::
  "string \<Rightarrow> task dict \<Rightarrow> string list \<Rightarrow> task option \<Rightarrow> error + task option" where
  "primary_inner primary_kind dep_tasks [] primary_dep = Inr primary_dep"
| "primary_inner primary_kind dep_tasks (dep_kind # rest) primary_dep =
     (if dep_kind = primary_kind then
        (case primary_dep of
           Some _ \<Rightarrow> Inl TooManyPrimary
         | None \<Rightarrow>
             (case dict_getitem dep_tasks dep_kind of
                Inl e \<Rightarrow> Inl e
              | Inr t \<Rightarrow> primary_inner primary_kind dep_tasks rest (Some t)))
      else primary_inner primary_kind dep_tasks rest primary_dep)"

text \<open>The outer loop \<^verbatim>\<open>for primary_kind in primary_dependencies\<close>. Neither loop breaks.\<close>

fun primary_outer ::
  "string list \<Rightarrow> task dict \<Rightarrow> task option \<Rightarrow> error + task option" where
  "primary_outer [] dep_tasks primary_dep = Inr primary_dep"
| "primary_outer (primary_kind # rest) dep_tasks primary_dep =
     (case primary_inner primary_kind dep_tasks (map fst dep_tasks) primary_dep of
        Inl e \<Rightarrow> Inl e
      | Inr primary_dep' \<Rightarrow> primary_outer rest dep_tasks primary_dep')"

text \<open>
  Lines 77 to 79: a string becomes the one-element list; \<open>None\<close> is Python's \<^verbatim>\<open>None\<close>.
\<close>

fun primary_dependencies :: "primary_dependency_cfg \<Rightarrow> string list option" where
  "primary_dependencies PdUndefined = None"
| "primary_dependencies (PdStr s) = Some [s]"
| "primary_dependencies (PdList ks) = Some ks"

text \<open>
  Lines 81 and 82, taken when \<^verbatim>\<open>primary_dependencies\<close> is false (\<^verbatim>\<open>None\<close> or the empty
  list): the assertion on the size of the group, then \<^verbatim>\<open>dep_tasks.values()[0]\<close>, which
  raises on every dictionary since \<^verbatim>\<open>values()\<close> is a view.
\<close>

definition first_dep :: "task dict \<Rightarrow> error + task" where
  "first_dep dep_tasks =
     (if length dep_tasks \<noteq> 1 then Inl MustDefinePrimary else Inl ValuesNotSubscriptable)"

definition get_primary_dep :: "config \<Rightarrow> task dict \<Rightarrow> error + task" where
  "get_primary_dep cfg dep_tasks =
     (case primary_dependencies (primary_dependency cfg) of
        None \<Rightarrow> first_dep dep_tasks
      | Some ks \<Rightarrow>
          if ks = [] then first_dep dep_tasks
          else
            (case primary_outer ks dep_tasks None of
               Inl e \<Rightarrow> Inl e
             | Inr None \<Rightarrow> Inl CantFindDependency
             | Inr (Some t) \<Rightarrow> Inr t))"

subsection \<open>\<^verbatim>\<open>loader\<close>\<close>

text \<open>\<^verbatim>\<open>{dep.kind: dep for dep in dep_tasks}\<close>\<close>

definition dep_tasks_per_kind :: "task list \<Rightarrow> task dict" where
  "dep_tasks_per_kind dep_tasks = fold (\<lambda>dep acc. dict_setitem (kind dep) dep acc) dep_tasks []"

text \<open>The dictionary of tasks as a value of the yielded task definition.\<close>

definition dict_value :: "task dict \<Rightarrow> pyval" where
  "dict_value d = VDict (map (\<lambda>(k, t). (k, VTask t)) d)"

text \<open>
  \<^verbatim>\<open>if task_template: task.update(copy.deepcopy(task_template))\<close>; an absent and an empty
  template are both false.
\<close>

fun apply_template :: "pyval dict option \<Rightarrow> pyval dict \<Rightarrow> pyval dict" where
  "apply_template None task = task"
| "apply_template (Some tmpl) task =
     (if tmpl = [] then task else dict_update task (deepcopy_dict tmpl))"

text \<open>The body of the loop of \<open>loader\<close>, lines 47 to 60, for one group: the task it yields, or the error.\<close>

definition loader_body :: "config \<Rightarrow> task list \<Rightarrow> error + pyval dict" where
  "loader_body cfg dep_tasks =
     (let kinds = map kind dep_tasks in
      case assert_unique_members kinds
             (Some ''multi_dep.py should have filtered down to one task per kind'') of
        Inl e \<Rightarrow> Inl e
      | Inr _ \<Rightarrow>
          (let per_kind = dep_tasks_per_kind dep_tasks;
               task0 = [(''dependent-tasks'', dict_value per_kind)]
           in case get_primary_dep cfg per_kind of
                Inl e \<Rightarrow> Inl e
              | Inr p \<Rightarrow>
                  Inr (apply_template (task_template cfg)
                         (dict_setitem ''primary-dependency'' (VTask p) task0))))"

text \<open>
  The generator: the tasks yielded so far, and the exception that ended it, if one did.
\<close>

fun loader_loop :: "config \<Rightarrow> task list list \<Rightarrow> pyval dict list \<times> error option" where
  "loader_loop cfg [] = ([], None)"
| "loader_loop cfg (dep_tasks # groups) =
     (case loader_body cfg dep_tasks of
        Inl e \<Rightarrow> ([], Some e)
      | Inr t \<Rightarrow> (case loader_loop cfg groups of (ts, r) \<Rightarrow> (t # ts, r)))"

text \<open>
  \<open>group_tasks\<close> lives in the package's \<^verbatim>\<open>__init__\<close> module; the loader takes it here as the
  parameter \<open>group_tasks\<close>, which gives the groups in the order they are produced. The
  arguments \<open>kind_name\<close>, \<open>path\<close> and \<open>params\<close> are not read by the loader.
\<close>

definition loader ::
  "(config \<Rightarrow> task list \<Rightarrow> task list list) \<Rightarrow>
   string \<Rightarrow> string \<Rightarrow> config \<Rightarrow> pyval dict \<Rightarrow> task list \<Rightarrow> pyval dict list \<times> error option" where
  "loader group_tasks kind_name path cfg params loaded_tasks =
     loader_loop cfg (group_tasks cfg loaded_tasks)"

section \<open>Properties\<close>

subsection \<open>Dictionaries\<close>

lemma map_of_dict_setitem: "map_of (dict_setitem k v d) = (map_of d)(k \<mapsto> v)"
  by (induction d) (auto simp: fun_eq_iff)

lemma keys_dict_setitem: "fst ` set (dict_setitem k v d) = insert k (fst ` set d)"
proof -
  have "dom (map_of (dict_setitem k v d)) = insert k (dom (map_of d))"
    by (simp only: map_of_dict_setitem dom_fun_upd option.distinct if_False)
  then show ?thesis by (simp only: dom_map_of_conv_image_fst)
qed

lemma distinct_dict_setitem:
  "distinct (map fst d) \<Longrightarrow> distinct (map fst (dict_setitem k v d))"
  by (induction d) (auto simp: keys_dict_setitem)

lemma dict_setitem_fresh: "k \<notin> fst ` set d \<Longrightarrow> dict_setitem k v d = d @ [(k, v)]"
  by (induction d) auto

lemma fold_setitem_fresh:
  "distinct (map kind g) \<Longrightarrow> kind ` set g \<inter> fst ` set acc = {} \<Longrightarrow>
   fold (\<lambda>dep acc. dict_setitem (kind dep) dep acc) g acc = acc @ map (\<lambda>t. (kind t, t)) g"
proof (induction g arbitrary: acc)
  case Nil
  then show ?case by simp
next
  case (Cons t g)
  have fresh: "kind t \<notin> fst ` set acc" using Cons.prems(2) by auto
  have "kind ` set g \<inter> fst ` set (acc @ [(kind t, t)]) = {}"
    using Cons.prems by auto
  with Cons.IH [of "acc @ [(kind t, t)]"] Cons.prems(1) fresh show ?case
    by (simp add: dict_setitem_fresh)
qed

lemma dep_tasks_per_kind_distinct:
  "distinct (map kind g) \<Longrightarrow> dep_tasks_per_kind g = map (\<lambda>t. (kind t, t)) g"
  unfolding dep_tasks_per_kind_def using fold_setitem_fresh [of g "[]"] by simp


lemma deepcopy_same: "deepcopy v = v"
proof (induction v)
  case (VList xs)
  then show ?case by (simp add: map_idI)
next
  case (VDict d)
  have "map (\<lambda>(k, v). (k, deepcopy v)) d = map (\<lambda>p. p) d"
  proof (rule map_cong [OF refl])
    fix p assume pd: "p \<in> set d"
    obtain k v where p: "p = (k, v)" by (cases p)
    have "deepcopy v = v" using VDict [of "(k, v)" v] pd p by simp
    then show "(case p of (k, v) \<Rightarrow> (k, deepcopy v)) = p" by (simp add: p)
  qed
  then show ?case by simp
qed simp_all

lemma deepcopy_dict_same: "deepcopy_dict d = d"
  by (induction d) (auto simp: deepcopy_dict_def deepcopy_same)

subsection \<open>The uniqueness check and the search loops\<close>

lemma unique_members_iff: "(length ks \<noteq> card (set ks)) = (\<not> distinct ks)"
  using card_distinct [of ks] distinct_card [of ks] by auto

lemma primary_inner_no_match:
  "pk \<notin> set ks \<Longrightarrow> primary_inner pk d ks acc = Inr acc"
  by (induction ks arbitrary: acc) auto

lemma primary_inner_too_many:
  "pk \<in> set ks \<Longrightarrow> primary_inner pk d ks (Some x) = Inl TooManyPrimary"
  by (induction ks) auto

lemma primary_inner_match:
  "distinct ks \<Longrightarrow> pk \<in> set ks \<Longrightarrow> map_of d pk = Some t \<Longrightarrow>
   primary_inner pk d ks None = Inr (Some t)"
  by (induction ks) (auto simp: dict_getitem_def primary_inner_no_match)

lemma key_has_value: "k \<in> fst ` set d \<Longrightarrow> \<exists>t. map_of d k = Some t"
  by (cases "map_of d k") (auto simp: map_of_eq_None_iff)

lemma primary_outer_no_match:
  "\<forall>k\<in>set ks. k \<notin> fst ` set d \<Longrightarrow> primary_outer ks d acc = Inr acc"
  by (induction ks arbitrary: acc) (auto simp: primary_inner_no_match)

lemma primary_outer_too_many:
  "\<exists>k\<in>set ks. k \<in> fst ` set d \<Longrightarrow> primary_outer ks d (Some x) = Inl TooManyPrimary"
proof (induction ks)
  case Nil
  then show ?case by simp
next
  case (Cons k ks)
  show ?case
  proof (cases "k \<in> fst ` set d")
    case True
    then show ?thesis by (simp add: primary_inner_too_many)
  next
    case False
    with Cons show ?thesis by (simp add: primary_inner_no_match)
  qed
qed

lemma primary_outer_step:
  "distinct (map fst d) \<Longrightarrow> map_of d k = Some t \<Longrightarrow>
   primary_outer (k # ks) d None = primary_outer ks d (Some t)"
proof -
  assume d: "distinct (map fst d)" and t: "map_of d k = Some t"
  have "(k, t) \<in> set d" using t by (rule map_of_SomeD)
  then have "k \<in> set (map fst d)" by force
  with d have "primary_inner k d (map fst d) None = Inr (Some t)"
    using t by (rule primary_inner_match)
  then show ?thesis by simp
qed

lemma primary_outer_skip:
  "k \<notin> fst ` set d \<Longrightarrow> primary_outer (k # ks) d acc = primary_outer ks d acc"
  by (simp add: primary_inner_no_match)

lemma primary_outer_one:
  "distinct (map fst d) \<Longrightarrow> filter (\<lambda>k. k \<in> fst ` set d) ks = [k] \<Longrightarrow> map_of d k = Some t \<Longrightarrow>
   primary_outer ks d None = Inr (Some t)"
proof (induction ks)
  case Nil
  then show ?case by simp
next
  case (Cons a ks)
  show ?case
  proof (cases "a \<in> fst ` set d")
    case True
    have "a # filter (\<lambda>k. k \<in> fst ` set d) ks = [k]"
      using Cons.prems(2) True by simp
    then have a: "a = k" and rest: "filter (\<lambda>k. k \<in> fst ` set d) ks = []" by simp_all
    from rest have "\<forall>k\<in>set ks. k \<notin> fst ` set d" by (simp add: filter_empty_conv)
    then have "primary_outer ks d (Some t) = Inr (Some t)" by (rule primary_outer_no_match)
    then show ?thesis
      using primary_outer_step [OF Cons.prems(1) Cons.prems(3), of ks] by (simp only: a)
  next
    case False
    have "filter (\<lambda>k. k \<in> fst ` set d) ks = [k]" using Cons.prems(2) False by simp
    with Cons.prems(1) have "primary_outer ks d None = Inr (Some t)"
      using Cons.prems(3) by (rule Cons.IH)
    then show ?thesis by (simp only: primary_outer_skip [OF False])
  qed
qed

lemma primary_outer_many:
  "distinct (map fst d) \<Longrightarrow> 1 < length (filter (\<lambda>k. k \<in> fst ` set d) ks) \<Longrightarrow>
   primary_outer ks d None = Inl TooManyPrimary"
proof (induction ks)
  case Nil
  then show ?case by simp
next
  case (Cons a ks)
  show ?case
  proof (cases "a \<in> fst ` set d")
    case True
    from key_has_value [OF True] obtain t where t: "map_of d a = Some t" ..
    have "1 < length (a # filter (\<lambda>k. k \<in> fst ` set d) ks)"
      using Cons.prems(2) True by simp
    then have "filter (\<lambda>k. k \<in> fst ` set d) ks \<noteq> []" by (cases "filter (\<lambda>k. k \<in> fst ` set d) ks") simp_all
    then have "\<exists>k\<in>set ks. k \<in> fst ` set d" by (simp add: filter_empty_conv)
    then have "primary_outer ks d (Some t) = Inl TooManyPrimary" by (rule primary_outer_too_many)
    then show ?thesis by (simp only: primary_outer_step [OF Cons.prems(1) t])
  next
    case False
    have "1 < length (filter (\<lambda>k. k \<in> fst ` set d) ks)" using Cons.prems(2) False by simp
    with Cons.prems(1) have "primary_outer ks d None = Inl TooManyPrimary"
      by (rule Cons.IH)
    then show ?thesis by (simp only: primary_outer_skip [OF False])
  qed
qed

subsection \<open>\<^verbatim>\<open>get_primary_dep\<close>\<close>

lemma primary_outer_single_found:
  assumes "distinct (map fst d)" and "map_of d s = Some t"
  shows "primary_outer [s] d None = Inr (Some t)"
proof -
  have "primary_outer [s] d None = primary_outer [] d (Some t)"
    using assms by (rule primary_outer_step)
  also have "\<dots> = Inr (Some t)" by simp
  finally show ?thesis .
qed

lemma primary_outer_single_missing:
  assumes "s \<notin> fst ` set d"
  shows "primary_outer [s] d None = Inr None"
proof -
  have "primary_outer [s] d None = primary_outer [] d None"
    using assms by (rule primary_outer_skip)
  also have "\<dots> = Inr None" by simp
  finally show ?thesis .
qed

lemma get_primary_dep_search:
  "primary_dependencies (primary_dependency cfg) = Some ks \<Longrightarrow> ks \<noteq> [] \<Longrightarrow>
   get_primary_dep cfg d =
     (case primary_outer ks d None of
        Inl e \<Rightarrow> Inl e
      | Inr None \<Rightarrow> Inl CantFindDependency
      | Inr (Some t) \<Rightarrow> Inr t)"
  by (simp add: get_primary_dep_def)

text \<open>
  Claim C7. Whatever the rest of the configuration and whatever the dictionary of dependent
  tasks, \<open>get_primary_dep\<close> gives the same outcome (the same task, or the same failure)
  for \<^verbatim>\<open>primary-dependency\<close> set to the string \<open>s\<close> and set to the one-element list
  \<open>[s]\<close>.
\<close>

theorem get_primary_dep_str_as_list:
  "get_primary_dep (cfg\<lparr>primary_dependency := PdStr s\<rparr>) dep_tasks =
   get_primary_dep (cfg\<lparr>primary_dependency := PdList [s]\<rparr>) dep_tasks"
  by (simp add: get_primary_dep_def)

text \<open>
  Claim C4. With \<^verbatim>\<open>primary-dependency\<close> undefined and a dictionary of exactly one task,
  \<open>get_primary_dep\<close> should return that task. It does not: the size assertion passes and
  \<^verbatim>\<open>dep_tasks.values()[0]\<close> raises, a dictionary view having no indexing. The run below is
  the configuration without the key and the dictionary with the single task
  \<^verbatim>\<open>build-a\<close> of kind \<^verbatim>\<open>build\<close>.
\<close>

theorem get_primary_dep_undefined_single:
  "get_primary_dep \<lparr>primary_dependency = PdUndefined, task_template = None\<rparr>
     [(''build'', \<lparr>kind = ''build'', label = ''build-a''\<rparr>)] = Inl ValuesNotSubscriptable"
  by (simp add: get_primary_dep_def first_dep_def)

text \<open>
  Claim C8. When \<^verbatim>\<open>primary-dependency\<close> is a single string, or a one-element list, the
  assertion "Too many primary dependent tasks" never fails, whatever the dictionary of
  dependent tasks: its keys are distinct, so at most one of them equals the single kind.
\<close>

theorem single_kind_never_too_many:
  assumes "primary_dependency cfg = PdStr s \<or> primary_dependency cfg = PdList [s]"
    and "distinct (map fst dep_tasks)"
  shows "get_primary_dep cfg dep_tasks \<noteq> Inl TooManyPrimary"
proof -
  have pds: "primary_dependencies (primary_dependency cfg) = Some [s]"
    using assms(1) by auto
  have search: "get_primary_dep cfg dep_tasks =
     (case primary_outer [s] dep_tasks None of
        Inl e \<Rightarrow> Inl e
      | Inr None \<Rightarrow> Inl CantFindDependency
      | Inr (Some t) \<Rightarrow> Inr t)"
    using pds by (rule get_primary_dep_search) simp
  show ?thesis
  proof (cases "s \<in> fst ` set dep_tasks")
    case True
    from key_has_value [OF True] obtain t where "map_of dep_tasks s = Some t" ..
    with assms(2) have "primary_outer [s] dep_tasks None = Inr (Some t)"
      by (rule primary_outer_single_found)
    then show ?thesis by (simp add: search)
  next
    case False
    then have "primary_outer [s] dep_tasks None = Inr None"
      by (rule primary_outer_single_missing)
    then show ?thesis by (simp add: search)
  qed
qed

theorem single_kind_never_too_many_witness:
  "distinct (map fst [(''build'', \<lparr>kind = ''build'', label = ''build-a''\<rparr>),
                      (''signing'', \<lparr>kind = ''signing'', label = ''signing-a''\<rparr>)]) \<and>
   get_primary_dep \<lparr>primary_dependency = PdStr ''build'', task_template = None\<rparr>
     [(''build'', \<lparr>kind = ''build'', label = ''build-a''\<rparr>),
      (''signing'', \<lparr>kind = ''signing'', label = ''signing-a''\<rparr>)] \<noteq> Inl TooManyPrimary"
  using single_kind_never_too_many
    [of "\<lparr>primary_dependency = PdStr ''build'', task_template = None\<rparr>" "''build''"
        "[(''build'', \<lparr>kind = ''build'', label = ''build-a''\<rparr>),
          (''signing'', \<lparr>kind = ''signing'', label = ''signing-a''\<rparr>)]"]
  by simp

text \<open>
  Claim C5. When \<^verbatim>\<open>primary-dependency\<close> is a string or a non-empty list, and the
  dictionary, keyed by kind, holds no task whose kind is one of the listed kinds,
  \<open>get_primary_dep\<close> raises the exception "Can't find dependency" and returns nothing.
\<close>

theorem no_matching_kind_raises:
  assumes "primary_dependency cfg = PdStr s \<and> ks = [s] \<or> primary_dependency cfg = PdList ks \<and> ks \<noteq> []"
    and "\<forall>(k, t)\<in>set dep_tasks. kind t = k"
    and "\<forall>t\<in>snd ` set dep_tasks. kind t \<notin> set ks"
  shows "get_primary_dep cfg dep_tasks = Inl CantFindDependency"
proof -
  have pds: "primary_dependencies (primary_dependency cfg) = Some ks" and ne: "ks \<noteq> []"
    using assms(1) by auto
  have "\<forall>k\<in>set ks. k \<notin> fst ` set dep_tasks"
  proof
    fix k assume k: "k \<in> set ks"
    show "k \<notin> fst ` set dep_tasks"
    proof
      assume "k \<in> fst ` set dep_tasks"
      then obtain t where kt: "(k, t) \<in> set dep_tasks" by force
      then have "kind t = k" using assms(2) by force
      moreover have "kind t \<notin> set ks" using assms(3) kt by force
      ultimately show False using k by simp
    qed
  qed
  then have "primary_outer ks dep_tasks None = Inr None" by (rule primary_outer_no_match)
  then show ?thesis by (simp add: get_primary_dep_search [OF pds ne])
qed

theorem no_matching_kind_raises_witness:
  "get_primary_dep \<lparr>primary_dependency = PdList [''signing'', ''push''], task_template = None\<rparr>
     [(''build'', \<lparr>kind = ''build'', label = ''build-a''\<rparr>)] = Inl CantFindDependency"
  using no_matching_kind_raises
    [of "\<lparr>primary_dependency = PdList [''signing'', ''push''], task_template = None\<rparr>" "''x''"
        "[''signing'', ''push'']" "[(''build'', \<lparr>kind = ''build'', label = ''build-a''\<rparr>)]"]
  by simp

text \<open>
  Claim C2. When \<^verbatim>\<open>primary-dependency\<close> is the string \<open>s\<close> and the dictionary, keyed by
  kind, holds a task \<open>t\<close> of kind \<open>s\<close>, \<open>get_primary_dep\<close> returns \<open>t\<close>; \<open>t\<close> is a
  task of the group (it is one of the dictionary's values, by hypothesis) and the only one
  of kind \<open>s\<close>.
\<close>

theorem string_primary_found:
  assumes "primary_dependency cfg = PdStr s"
    and "distinct (map fst dep_tasks)"
    and "\<forall>(k, t)\<in>set dep_tasks. kind t = k"
    and "t \<in> snd ` set dep_tasks"
    and "kind t = s"
  shows "get_primary_dep cfg dep_tasks = Inr t \<and>
         (\<forall>t'\<in>snd ` set dep_tasks. kind t' = s \<longrightarrow> t' = t)"
proof -
  have at_kind: "(s, u) \<in> set dep_tasks" if "u \<in> snd ` set dep_tasks" "kind u = s" for u
  proof -
    from that(1) obtain k where ku: "(k, u) \<in> set dep_tasks" by force
    then have "kind u = k" using assms(3) by force
    then show ?thesis using ku that(2) by simp
  qed
  have "(s, t) \<in> set dep_tasks" using assms(4,5) by (rule at_kind)
  then have t: "map_of dep_tasks s = Some t"
    using assms(2) by simp
  have pds: "primary_dependencies (primary_dependency cfg) = Some [s]"
    using assms(1) by simp
  have "primary_outer [s] dep_tasks None = Inr (Some t)"
    using assms(2) t by (rule primary_outer_single_found)
  then have res: "get_primary_dep cfg dep_tasks = Inr t"
    by (simp add: get_primary_dep_search [OF pds])
  have "t' = t" if "t' \<in> snd ` set dep_tasks" "kind t' = s" for t'
  proof -
    have "(s, t') \<in> set dep_tasks" using that by (rule at_kind)
    then have "map_of dep_tasks s = Some t'" using assms(2) by simp
    then show ?thesis using t by simp
  qed
  then show ?thesis using res by blast
qed

theorem string_primary_found_witness:
  "get_primary_dep \<lparr>primary_dependency = PdStr ''signing'', task_template = None\<rparr>
     [(''build'', \<lparr>kind = ''build'', label = ''build-a''\<rparr>),
      (''signing'', \<lparr>kind = ''signing'', label = ''signing-a''\<rparr>)]
   = Inr \<lparr>kind = ''signing'', label = ''signing-a''\<rparr>"
  using string_primary_found
    [of "\<lparr>primary_dependency = PdStr ''signing'', task_template = None\<rparr>" "''signing''"
        "[(''build'', \<lparr>kind = ''build'', label = ''build-a''\<rparr>),
          (''signing'', \<lparr>kind = ''signing'', label = ''signing-a''\<rparr>)]"
        "\<lparr>kind = ''signing'', label = ''signing-a''\<rparr>"]
  by simp

text \<open>
  Claim C3. When \<^verbatim>\<open>primary-dependency\<close> is a list of kinds, \<open>get_primary_dep\<close> should return
  the dep of the first kind in the list that has a match, as its docstring says. It does
  not when a later kind of the list has a match too: the search does not stop at the first
  match, and the next match finds \<^verbatim>\<open>primary_dep\<close> already set and raises. The run below is
  the list \<^verbatim>\<open>[signing, build]\<close> and a group holding one task of each of the two kinds: the
  first listed kind with a match is \<^verbatim>\<open>signing\<close>, its dep is the task \<^verbatim>\<open>signing-a\<close>, and the
  call raises instead of returning it.
\<close>

theorem get_primary_dep_list_two_matches:
  "List.find (\<lambda>k. k \<in> fst ` set [(''build'', \<lparr>kind = ''build'', label = ''build-a''\<rparr>),
                                      (''signing'', \<lparr>kind = ''signing'', label = ''signing-a''\<rparr>)])
     [''signing'', ''build''] = Some ''signing'' \<and>
   map_of [(''build'', \<lparr>kind = ''build'', label = ''build-a''\<rparr>),
           (''signing'', \<lparr>kind = ''signing'', label = ''signing-a''\<rparr>)] ''signing''
     = Some \<lparr>kind = ''signing'', label = ''signing-a''\<rparr> \<and>
   get_primary_dep \<lparr>primary_dependency = PdList [''signing'', ''build''], task_template = None\<rparr>
     [(''build'', \<lparr>kind = ''build'', label = ''build-a''\<rparr>),
      (''signing'', \<lparr>kind = ''signing'', label = ''signing-a''\<rparr>)] = Inl TooManyPrimary"
  by (simp add: get_primary_dep_def dict_getitem_def)

subsection \<open>\<^verbatim>\<open>loader\<close>\<close>

lemma primary_inner_error:
  "primary_inner pk d ks acc = Inl e \<Longrightarrow> e = TooManyPrimary \<or> (\<exists>k. e = KeyError k)"
proof (induction ks arbitrary: acc)
  case Nil
  then show ?case by simp
next
  case (Cons k ks)
  show ?case
  proof (cases "k = pk")
    case False
    then show ?thesis using Cons by simp
  next
    case True
    show ?thesis
    proof (cases acc)
      case (Some x)
      then show ?thesis using Cons.prems True by simp
    next
      case None
      show ?thesis
      proof (cases "map_of d k")
        case None
        then show ?thesis using Cons.prems True \<open>acc = None\<close> by (auto simp: dict_getitem_def)
      next
        case (Some t)
        then have "primary_inner pk d ks (Some t) = Inl e"
          using Cons.prems True \<open>acc = None\<close> by (simp add: dict_getitem_def)
        then show ?thesis by (rule Cons.IH)
      qed
    qed
  qed
qed

lemma primary_outer_error:
  "primary_outer ks d acc = Inl e \<Longrightarrow> e = TooManyPrimary \<or> (\<exists>k. e = KeyError k)"
proof (induction ks arbitrary: acc)
  case Nil
  then show ?case by simp
next
  case (Cons k ks)
  show ?case
  proof (cases "primary_inner k d (map fst d) acc")
    case (Inl e')
    then have "e' = e" using Cons.prems by simp
    then show ?thesis using Inl primary_inner_error by simp
  next
    case (Inr acc')
    then have "primary_outer ks d acc' = Inl e" using Cons.prems by simp
    then show ?thesis by (rule Cons.IH)
  qed
qed

lemma get_primary_dep_no_exception: "get_primary_dep cfg d \<noteq> Inl (PyException m)"
proof
  assume h: "get_primary_dep cfg d = Inl (PyException m)"
  show False
  proof (cases "primary_dependencies (primary_dependency cfg)")
    case None
    then show False using h by (simp add: get_primary_dep_def first_dep_def split: if_splits)
  next
    case (Some ks)
    show False
    proof (cases "ks = []")
      case True
      then show False using h Some by (simp add: get_primary_dep_def first_dep_def split: if_splits)
    next
      case False
      show False
      proof (cases "primary_outer ks d None")
        case (Inl e)
        then have "e = PyException m"
          using h by (simp add: get_primary_dep_search [OF Some False])
        then show False using primary_outer_error [OF Inl] by simp
      next
        case (Inr r)
        then show False
          using h by (cases r) (simp_all add: get_primary_dep_search [OF Some False])
      qed
    qed
  qed
qed


lemma loader_body_distinct:
  "distinct (map kind g) \<Longrightarrow>
   loader_body cfg g =
     (case get_primary_dep cfg (dep_tasks_per_kind g) of
        Inl e \<Rightarrow> Inl e
      | Inr p \<Rightarrow>
          Inr (apply_template (task_template cfg)
                 [(''dependent-tasks'', dict_value (dep_tasks_per_kind g)),
                  (''primary-dependency'', VTask p)]))"
  by (simp add: loader_body_def assert_unique_members_def unique_members_iff Let_def
        split: sum.splits)


lemma loader_loop_cons_ok:
  "loader_body cfg g = Inr y \<Longrightarrow>
   loader_loop cfg (g # gs) = (y # fst (loader_loop cfg gs), snd (loader_loop cfg gs))"
  by (simp add: case_prod_beta)

lemma loader_loop_cons_error:
  "loader_body cfg g = Inl e \<Longrightarrow> loader_loop cfg (g # gs) = ([], Some e)"
  by simp


lemma loader_loop_no_exception:
  "\<forall>g\<in>set gs. distinct (map kind g) \<Longrightarrow> snd (loader_loop cfg gs) \<noteq> Some (PyException m)"
proof (induction gs)
  case Nil
  then show ?case by simp
next
  case (Cons g gs)
  then have dist: "distinct (map kind g)" by simp
  show ?case
  proof (cases "loader_body cfg g")
    case (Inl e)
    have "e \<noteq> PyException m"
    proof (cases "get_primary_dep cfg (dep_tasks_per_kind g)")
      case (Inl e')
      then have "e = e'" using \<open>loader_body cfg g = Inl e\<close> by (simp add: loader_body_distinct [OF dist])
      then show ?thesis using Inl get_primary_dep_no_exception [of cfg "dep_tasks_per_kind g" m] by auto
    next
      case (Inr p)
      then show ?thesis using \<open>loader_body cfg g = Inl e\<close> by (simp add: loader_body_distinct [OF dist])
    qed
    then show ?thesis by (simp add: loader_loop_cons_error [OF Inl] del: loader_loop.simps)
  next
    case (Inr y)
    then show ?thesis using Cons by (simp add: loader_loop_cons_ok [OF Inr] del: loader_loop.simps)
  qed
qed

lemma loader_loop_prefix:
  "\<forall>g\<in>set pre. \<exists>y. loader_body cfg g = Inr y \<Longrightarrow>
   \<exists>ys. length ys = length pre \<and>
        loader_loop cfg (pre @ rest) = (ys @ fst (loader_loop cfg rest), snd (loader_loop cfg rest))"
proof (induction pre)
  case Nil
  then show ?case by simp
next
  case (Cons a pre)
  then obtain y where y: "loader_body cfg a = Inr y" by auto
  from Cons obtain ys where ys: "length ys = length pre"
     "loader_loop cfg (pre @ rest) = (ys @ fst (loader_loop cfg rest), snd (loader_loop cfg rest))"
    by auto
  have "loader_loop cfg ((a # pre) @ rest) =
          ((y # ys) @ fst (loader_loop cfg rest), snd (loader_loop cfg rest))"
    using loader_loop_cons_ok [OF y, of "pre @ rest"] ys(2) by simp
  moreover have "length (y # ys) = length (a # pre)" using ys(1) by simp
  ultimately show ?case by blast
qed


lemma map_of_dict_update_other:
  "k \<notin> fst ` set other \<Longrightarrow> map_of (dict_update d other) k = map_of d k"
proof (induction other arbitrary: d)
  case Nil
  then show ?case by (simp add: dict_update_def)
next
  case (Cons p other)
  obtain k' v where p: "p = (k', v)" by (cases p)
  have step: "dict_update d (p # other) = dict_update (dict_setitem k' v d) other"
    by (simp add: dict_update_def p)
  have "k \<notin> fst ` set other" and ne: "k \<noteq> k'" using Cons.prems p by auto
  then have "map_of (dict_update (dict_setitem k' v d) other) k = map_of (dict_setitem k' v d) k"
    by (intro Cons.IH)
  then show ?case using ne by (simp add: step map_of_dict_setitem)
qed

lemma apply_template_other:
  assumes "\<forall>tmpl. task_template cfg = Some tmpl \<longrightarrow> k \<notin> fst ` set tmpl"
  shows "map_of (apply_template (task_template cfg) task) k = map_of task k"
proof (cases "task_template cfg")
  case None
  then show ?thesis by simp
next
  case (Some tmpl)
  then have "k \<notin> fst ` set tmpl" using assms by simp
  then show ?thesis using Some by (simp add: deepcopy_dict_same map_of_dict_update_other)
qed


lemma loader_loop_length: "length (fst (loader_loop cfg gs)) \<le> length gs"
proof (induction gs)
  case Nil
  then show ?case by simp
next
  case (Cons g gs)
  show ?case
  proof (cases "loader_body cfg g")
    case (Inl e)
    then show ?thesis by (simp add: loader_loop_cons_error [OF Inl] del: loader_loop.simps)
  next
    case (Inr y)
    then show ?thesis using Cons by (simp add: loader_loop_cons_ok [OF Inr] del: loader_loop.simps)
  qed
qed





text \<open>
  Claim C1, as stated, fails: a group whose kinds are pairwise distinct yields nothing when
  \<open>get_primary_dep\<close> finds no primary dependency in it. Here the group is the single task
  of kind \<^verbatim>\<open>build\<close> and \<^verbatim>\<open>primary-dependency\<close> is \<^verbatim>\<open>signing\<close>.
\<close>

theorem loader_primary_missing_counterexample:
  "distinct (map kind [\<lparr>kind = ''build'', label = ''build-a''\<rparr>]) \<and>
   loader (\<lambda>c l. [[\<lparr>kind = ''build'', label = ''build-a''\<rparr>]]) ''beetmover'' ''ci/beetmover''
     \<lparr>primary_dependency = PdStr ''signing'', task_template = None\<rparr> []
     [\<lparr>kind = ''build'', label = ''build-a''\<rparr>]
   = ([], Some CantFindDependency)"
  by (simp add: loader_def loader_body_def assert_unique_members_def dep_tasks_per_kind_def
      get_primary_dep_def)

text \<open>
  Claim C1, amended. Take a group produced by \<open>group_tasks\<close> such that it and every group
  before it have pairwise distinct kinds and a primary dependency that \<open>get_primary_dep\<close>
  returns, and a \<^verbatim>\<open>task-template\<close> that does not itself define \<^verbatim>\<open>dependent-tasks\<close>. Then
  the loader yields exactly one task dictionary for the group, at the group's position
  (one per earlier group before it, at most one per later group after it), and its
  \<^verbatim>\<open>dependent-tasks\<close> entry maps the kind of each task of the group to that task and
  holds nothing else.
\<close>

theorem loader_yields_group:
  assumes "group_tasks cfg loaded_tasks = pre @ g # post"
    and "\<forall>g'\<in>set (pre @ [g]). distinct (map kind g') \<and>
           (\<exists>p. get_primary_dep cfg (dep_tasks_per_kind g') = Inr p)"
    and "\<forall>tmpl. task_template cfg = Some tmpl \<longrightarrow> ''dependent-tasks'' \<notin> fst ` set tmpl"
  shows "\<exists>ys y rest r.
           loader group_tasks kind_name path cfg params loaded_tasks = (ys @ y # rest, r) \<and>
           length ys = length pre \<and> length rest \<le> length post \<and>
           map_of y ''dependent-tasks'' = Some (VDict (map (\<lambda>t. (kind t, VTask t)) g))"
proof -
  have ok: "\<exists>p. loader_body cfg g' =
                  Inr (apply_template (task_template cfg)
                         [(''dependent-tasks'', dict_value (dep_tasks_per_kind g')),
                          (''primary-dependency'', VTask p)])"
    if "g' \<in> set (pre @ [g])" for g'
  proof -
    from that assms(2) have dist: "distinct (map kind g')"
      and "\<exists>p. get_primary_dep cfg (dep_tasks_per_kind g') = Inr p" by blast+
    then obtain p where "get_primary_dep cfg (dep_tasks_per_kind g') = Inr p" by blast
    then have "loader_body cfg g' =
                  Inr (apply_template (task_template cfg)
                         [(''dependent-tasks'', dict_value (dep_tasks_per_kind g')),
                          (''primary-dependency'', VTask p)])"
      by (simp add: loader_body_distinct [OF dist])
    then show ?thesis ..
  qed
  have "\<forall>g'\<in>set pre. \<exists>y. loader_body cfg g' = Inr y"
  proof
    fix g' assume "g' \<in> set pre"
    then have "g' \<in> set (pre @ [g])" by simp
    from ok [OF this] show "\<exists>y. loader_body cfg g' = Inr y" by blast
  qed
  from loader_loop_prefix [OF this, of "g # post"] obtain ys where ys: "length ys = length pre"
    "loader_loop cfg (pre @ g # post) =
       (ys @ fst (loader_loop cfg (g # post)), snd (loader_loop cfg (g # post)))"
    by blast
  have "g \<in> set (pre @ [g])" by simp
  from ok [OF this] obtain p where
    y: "loader_body cfg g =
          Inr (apply_template (task_template cfg)
                 [(''dependent-tasks'', dict_value (dep_tasks_per_kind g)),
                  (''primary-dependency'', VTask p)])" by blast
  define y where "y = apply_template (task_template cfg)
                 [(''dependent-tasks'', dict_value (dep_tasks_per_kind g)),
                  (''primary-dependency'', VTask p)]"
  have body: "loader_body cfg g = Inr y" using y by (simp only: y_def)
  have dist: "distinct (map kind g)" using assms(2) by simp
  have "map_of y ''dependent-tasks'' =
        map_of [(''dependent-tasks'', dict_value (dep_tasks_per_kind g)),
                (''primary-dependency'', VTask p)] ''dependent-tasks''"
    unfolding y_def using assms(3) by (rule apply_template_other)
  also have "\<dots> = Some (dict_value (dep_tasks_per_kind g))" by simp
  also have "dict_value (dep_tasks_per_kind g) = VDict (map (\<lambda>t. (kind t, VTask t)) g)"
    by (simp add: dict_value_def dep_tasks_per_kind_distinct [OF dist] comp_def)
  finally have entry: "map_of y ''dependent-tasks'' = Some (VDict (map (\<lambda>t. (kind t, VTask t)) g))" .
  have "loader group_tasks kind_name path cfg params loaded_tasks =
          (ys @ y # fst (loader_loop cfg post), snd (loader_loop cfg post))"
    unfolding loader_def assms(1) ys(2) loader_loop_cons_ok [OF body] by simp
  then show ?thesis using ys(1) entry loader_loop_length [of cfg post] by blast
qed

theorem loader_yields_group_witness:
  "\<exists>ys y rest r.
     loader (\<lambda>c l. [[\<lparr>kind = ''build'', label = ''build-a''\<rparr>,
                      \<lparr>kind = ''signing'', label = ''signing-a''\<rparr>]])
       ''beetmover'' ''ci/beetmover''
       \<lparr>primary_dependency = PdStr ''build'', task_template = Some [(''worker-type'', VStr ''b-linux'')]\<rparr>
       [] [] = (ys @ y # rest, r) \<and>
     length ys = 0 \<and> length rest \<le> 0 \<and>
     map_of y ''dependent-tasks'' =
       Some (VDict [(''build'', VTask \<lparr>kind = ''build'', label = ''build-a''\<rparr>),
                    (''signing'', VTask \<lparr>kind = ''signing'', label = ''signing-a''\<rparr>)])"
proof -
  let ?a = "\<lparr>kind = ''build'', label = ''build-a''\<rparr>"
  let ?s = "\<lparr>kind = ''signing'', label = ''signing-a''\<rparr>"
  let ?cfg = "\<lparr>primary_dependency = PdStr ''build'',
               task_template = Some [(''worker-type'', VStr ''b-linux'')]\<rparr>"
  have h1: "(\<lambda>c l. [[?a, ?s]]) ?cfg [] = [] @ [?a, ?s] # []" by simp
  have p: "get_primary_dep ?cfg (dep_tasks_per_kind [?a, ?s]) = Inr ?a"
    by (simp add: get_primary_dep_def dep_tasks_per_kind_def dict_getitem_def)
  have h2: "\<forall>g'\<in>set ([] @ [[?a, ?s]]). distinct (map kind g') \<and>
           (\<exists>p. get_primary_dep ?cfg (dep_tasks_per_kind g') = Inr p)"
    using p by simp
  have h3: "\<forall>tmpl. task_template ?cfg = Some tmpl \<longrightarrow> ''dependent-tasks'' \<notin> fst ` set tmpl"
    by simp
  note w = loader_yields_group
    [where group_tasks = "\<lambda>c l. [[?a, ?s]]" and cfg = ?cfg and loaded_tasks = "[]" and pre = "[]"
       and g = "[?a, ?s]" and post = "[]" and kind_name = "''beetmover''"
       and path = "''ci/beetmover''" and params = "[]"]
  have "\<exists>ys y rest r.
     loader (\<lambda>c l. [[?a, ?s]]) ''beetmover'' ''ci/beetmover'' ?cfg [] [] = (ys @ y # rest, r) \<and>
     length ys = length ([] :: task list list) \<and>
     length rest \<le> length ([] :: task list list) \<and>
     map_of y ''dependent-tasks'' = Some (VDict (map (\<lambda>t. (kind t, VTask t)) [?a, ?s]))"
    using h1 h2 h3 by (rule w)
  then show ?thesis by simp
qed



end
